theory Spec2Isabelle
  imports Main "HOL-Library.Sublist"
begin

section \<open>Contact manager: the record store of \<open>contact_manager.py\<close>\<close>

text \<open>
  The theory embeds the class \<open>ContactManager\<close>: its record list, its bounded undo
  log and its backing file. Mutation is explicit state passing, every \<open>raise\<close> is a
  value of the result, and every loop is a recursive function. The values that the
  code obtains from \<open>uuid.uuid4()\<close> and \<open>datetime.now()\<close> are arguments of the
  operations; the libraries \<open>phonenumbers\<close> and \<open>email_validator\<close> are the fields of
  a record of functions that every operation using them receives.
\<close>

subsection \<open>Strings\<close>

text \<open>
  Strings are lists of 8-bit characters and are read as ASCII text. On ASCII,
  \<open>str.isspace\<close> holds for the codes 9 to 13 and 28 to 32, and \<open>str.lower\<close> maps
  \<open>A\<close> to \<open>Z\<close> onto \<open>a\<close> to \<open>z\<close>.
\<close>

definition char_code :: "char \<Rightarrow> nat" where
  "char_code c = of_char c"

definition isspace :: "char \<Rightarrow> bool" where
  "isspace c = (let n = char_code c in (9 \<le> n \<and> n \<le> 13) \<or> (28 \<le> n \<and> n \<le> 32))"

definition isletter :: "char \<Rightarrow> bool" where
  "isletter c = (let n = char_code c in (65 \<le> n \<and> n \<le> 90) \<or> (97 \<le> n \<and> n \<le> 122))"

definition lower_char :: "char \<Rightarrow> char" where
  "lower_char c = (let n = char_code c in if 65 \<le> n \<and> n \<le> 90 then char_of (n + 32) else c)"

definition lower :: "string \<Rightarrow> string" where
  "lower s = map lower_char s"

definition strip :: "string \<Rightarrow> string" where
  "strip s = rev (dropWhile isspace (rev (dropWhile isspace s)))"

text \<open>\<open>startswith t s\<close> is \<open>s.startswith(t)\<close>; \<open>py_in t s\<close> is Python's \<open>t in s\<close>.\<close>

fun startswith :: "string \<Rightarrow> string \<Rightarrow> bool" where
  "startswith [] s = True"
| "startswith (a # t) [] = False"
| "startswith (a # t) (b # s) = (a = b \<and> startswith t s)"

fun py_in :: "string \<Rightarrow> string \<Rightarrow> bool" where
  "py_in t [] = (t = [])"
| "py_in t (c # s) = (startswith t (c # s) \<or> py_in t s)"

text \<open>
  \<open>re.match(r"^[A-Za-z\s]{1,100}$", s)\<close>: between 1 and 100 characters of the class,
  up to the end of the string or up to one final newline (\<open>$\<close> also matches there).
\<close>

definition name_class :: "string \<Rightarrow> bool" where
  "name_class s = (1 \<le> length s \<and> length s \<le> 100 \<and> list_all (\<lambda>c. isletter c \<or> isspace c) s)"

definition name_regex :: "string \<Rightarrow> bool" where
  "name_regex s =
     (name_class s \<or> (s \<noteq> [] \<and> last s = CHR 0x0A \<and> name_class (butlast s)))"

subsection \<open>Data model\<close>

text \<open>
  A contact is a dictionary with the seven keys that \<open>add_contact\<close> and
  \<open>import_from_csv\<close> give it, all with string values; the lists read from the store
  file and from a backup are taken to hold such records.
\<close>

record contact =
  c_id :: string
  c_name :: string
  c_phone :: string
  c_email :: string
  c_category :: string
  c_notes :: string
  c_last_modified :: string

text \<open>The tuples pushed on \<open>undo_stack\<close>, by their first component.\<close>

datatype action =
    Add contact
  | Update contact contact
  | Delete contact
  | Import "contact list"
  | Restore "contact list"

datatype error = IOError | KeyError string | AttributeError

datatype 'a outcome = Return 'a | Raise error

datatype dialog = ShowWarning string | ShowError string

text \<open>
  \<open>phonenumbers.parse(s, None)\<close> (\<open>None\<close> of the result is \<open>NumberParseException\<close>),
  \<open>phonenumbers.is_valid_number\<close>, \<open>format_number(_, E164)\<close> and
  \<open>validate_email(_, check_deliverability=False)\<close> (\<open>Some msg\<close> is
  \<open>EmailNotValidError\<close> with that text).
\<close>

record 'p env =
  parse :: "string \<Rightarrow> 'p option"
  is_valid_number :: "'p \<Rightarrow> bool"
  format_e164 :: "'p \<Rightarrow> string"
  validate_email :: "string \<Rightarrow> string option"

text \<open>
  The store and the files it owns: \<open>disk\<close> is the content of the file \<open>filename\<close>
  (\<open>None\<close> when it does not exist), \<open>backups\<close> associates the timestamp suffix of
  a backup file with its content (the first pair with a suffix is the file, a copy
  to an existing name overwrites it), \<open>writable\<close> tells whether copying and writing
  succeed. The undo log is a list with the most recent entry last.
\<close>

record state =
  contacts :: "contact list"
  undo_stack :: "action list"
  disk :: "contact list option"
  backups :: "(string \<times> contact list) list"
  writable :: bool

subsection \<open>The undo log: \<open>deque(maxlen=10)\<close>\<close>

definition maxlen :: nat where
  "maxlen = 10"

definition deque_append :: "'a \<Rightarrow> 'a list \<Rightarrow> 'a list" where
  "deque_append x q = (let q' = q @ [x] in drop (length q' - maxlen) q')"

subsection \<open>\<open>save_contacts\<close>\<close>

definition save_contacts :: "string \<Rightarrow> state \<Rightarrow> error + state" where
  "save_contacts stamp s =
     (if \<not> writable s then Inl IOError
      else Inr (s\<lparr>backups := (case disk s of None \<Rightarrow> backups s
                                | Some old \<Rightarrow> (stamp, old) # backups s),
                  disk := Some (contacts s)\<rparr>))"

subsection \<open>\<open>validate_inputs\<close>\<close>

text \<open>
  The canonical form computed on the success path is bound to the local variable
  \<open>phone\<close> and is not part of the returned pair.
\<close>

definition validate_inputs :: "'p env \<Rightarrow> string \<Rightarrow> string \<Rightarrow> string \<Rightarrow> bool \<times> string" where
  "validate_inputs E name phone email =
     (let name = strip name; phone = strip phone; email = strip email in
      if name = [] then (False, ''Name is required.'')
      else if \<not> name_regex name
        then (False, ''Name can only contain letters and spaces (max 100 characters).'')
      else case parse E phone of
          None \<Rightarrow> (False, ''Invalid phone number format.'')
        | Some parsed_phone \<Rightarrow>
            if \<not> is_valid_number E parsed_phone
              then (False, ''Invalid phone number format (e.g., +1234567890).'')
            else let phone = format_e164 E parsed_phone in
              if email \<noteq> [] then
                (case validate_email E email of
                    Some msg \<Rightarrow> (False, ''Invalid email format: '' @ msg)
                  | None \<Rightarrow> (True, ''''))
              else (True, ''''))"

subsection \<open>\<open>is_duplicate\<close>\<close>

definition normalized_phone :: "'p env \<Rightarrow> string \<Rightarrow> string" where
  "normalized_phone E phone =
     (case parse E phone of Some parsed_phone \<Rightarrow> format_e164 E parsed_phone | None \<Rightarrow> phone)"

fun duplicate_loop :: "string \<Rightarrow> string \<Rightarrow> string \<Rightarrow> contact list \<Rightarrow> bool" where
  "duplicate_loop name np email [] = False"
| "duplicate_loop name np email (c # cs) =
     (if lower (c_name c) = lower name \<or> c_phone c = np \<or>
         (email \<noteq> [] \<and> lower (c_email c) = lower email)
      then True else duplicate_loop name np email cs)"

definition is_duplicate :: "'p env \<Rightarrow> state \<Rightarrow> string \<Rightarrow> string \<Rightarrow> string \<Rightarrow> bool" where
  "is_duplicate E s name phone email =
     duplicate_loop name (normalized_phone E phone) email (contacts s)"

subsection \<open>\<open>add_contact\<close>, \<open>update_contact\<close>, \<open>delete_contact\<close>\<close>

text \<open>\<open>nid\<close> is the value of \<open>str(uuid.uuid4())\<close>, \<open>now\<close> of
  \<open>datetime.now().isoformat()\<close>, \<open>stamp\<close> the timestamp in the backup's name.\<close>

definition add_contact ::
  "'p env \<Rightarrow> string \<Rightarrow> string \<Rightarrow> string \<Rightarrow> string \<Rightarrow> string \<Rightarrow> string \<Rightarrow> string \<Rightarrow> string
     \<Rightarrow> state \<Rightarrow> contact option outcome \<times> state" where
  "add_contact E nid now stamp name phone email category notes s =
     (let contact = \<lparr>c_id = nid, c_name = name, c_phone = phone, c_email = email,
                      c_category = category, c_notes = notes, c_last_modified = now\<rparr> in
      if is_duplicate E s name phone email then (Return None, s)
      else
        let s1 = s\<lparr>undo_stack := deque_append (Add contact) (undo_stack s)\<rparr>;
            s2 = s1\<lparr>contacts := contacts s1 @ [contact]\<rparr> in
        case save_contacts stamp s2 of
            Inl e \<Rightarrow> (Raise e, s2)
          | Inr s3 \<Rightarrow> (Return (Some contact), s3))"

text \<open>The loop of \<open>update_contact\<close>: the first record with the id is changed in place;
  the result is its copy before the change and the list after it.\<close>

fun update_loop ::
  "string \<Rightarrow> (contact \<Rightarrow> contact) \<Rightarrow> contact list \<Rightarrow> (contact \<times> contact list) option" where
  "update_loop i f [] = None"
| "update_loop i f (c # cs) =
     (if c_id c = i then Some (c, f c # cs)
      else (case update_loop i f cs of
               None \<Rightarrow> None
             | Some (old, cs') \<Rightarrow> Some (old, c # cs')))"

definition update_contact ::
  "string \<Rightarrow> string \<Rightarrow> string \<Rightarrow> string \<Rightarrow> string \<Rightarrow> string \<Rightarrow> string \<Rightarrow> string
     \<Rightarrow> state \<Rightarrow> bool outcome \<times> state" where
  "update_contact now stamp contact_id name phone email category notes s =
     (let f = (\<lambda>c. c\<lparr>c_name := name, c_phone := phone, c_email := email,
                      c_category := category, c_notes := notes, c_last_modified := now\<rparr>) in
      case update_loop contact_id f (contacts s) of
          None \<Rightarrow> (Return False, s)
        | Some (old_contact, cs') \<Rightarrow>
            let s1 = s\<lparr>contacts := cs'\<rparr>;
                s2 = s1\<lparr>undo_stack :=
                          deque_append (Update old_contact (f old_contact)) (undo_stack s1)\<rparr> in
            (case save_contacts stamp s2 of
                Inl e \<Rightarrow> (Raise e, s2)
              | Inr s3 \<Rightarrow> (Return True, s3)))"

text \<open>\<open>list.remove\<close> deletes the first element equal to its argument: \<open>remove1\<close>.\<close>

definition delete_contact :: "string \<Rightarrow> string \<Rightarrow> state \<Rightarrow> bool outcome \<times> state" where
  "delete_contact stamp contact_id s =
     (case find (\<lambda>c. c_id c = contact_id) (contacts s) of
          None \<Rightarrow> (Return False, s)
        | Some contact \<Rightarrow>
            let s1 = s\<lparr>undo_stack := deque_append (Delete contact) (undo_stack s)\<rparr>;
                s2 = s1\<lparr>contacts := remove1 contact (contacts s1)\<rparr> in
            (case save_contacts stamp s2 of
                Inl e \<Rightarrow> (Raise e, s2)
              | Inr s3 \<Rightarrow> (Return True, s3)))"

subsection \<open>\<open>undo\<close>\<close>

text \<open>
  The \<open>if\<close>/\<open>elif\<close> chain of \<open>undo\<close> on the popped entry. It has the branches
  \<open>'add'\<close>, \<open>'delete'\<close>, \<open>'update'\<close> and \<open>'import'\<close> and no \<open>else\<close>: on any other
  entry the list is left as it is. \<open>dict.update\<close> with the old copy overwrites all
  seven fields.
\<close>

fun reverse_action :: "action \<Rightarrow> contact list \<Rightarrow> contact list" where
  "reverse_action (Add c) cs = filter (\<lambda>x. c_id x \<noteq> c_id c) cs"
| "reverse_action (Delete c) cs = cs @ [c]"
| "reverse_action (Update old new) cs = map (\<lambda>x. if c_id x = c_id new then old else x) cs"
| "reverse_action (Import imported) cs =
     (let imported_ids = map c_id imported in filter (\<lambda>x. c_id x \<notin> set imported_ids) cs)"
| "reverse_action (Restore previous) cs = cs"

definition undo :: "string \<Rightarrow> state \<Rightarrow> bool outcome \<times> state" where
  "undo stamp s =
     (if undo_stack s = [] then (Return False, s)
      else
        let action = last (undo_stack s);
            s1 = s\<lparr>undo_stack := butlast (undo_stack s)\<rparr>;
            s2 = s1\<lparr>contacts := reverse_action action (contacts s1)\<rparr> in
        case save_contacts stamp s2 of
            Inl e \<Rightarrow> (Raise e, s2)
          | Inr s3 \<Rightarrow> (Return True, s3))"

subsection \<open>\<open>search_contacts\<close>\<close>

text \<open>\<open>contact[field]\<close>: a record is a dictionary with seven keys, any other key is a
  \<open>KeyError\<close> (\<open>None\<close> here).\<close>

definition get_field :: "string \<Rightarrow> contact \<Rightarrow> string option" where
  "get_field field c =
     (if field = ''id'' then Some (c_id c)
      else if field = ''name'' then Some (c_name c)
      else if field = ''phone'' then Some (c_phone c)
      else if field = ''email'' then Some (c_email c)
      else if field = ''category'' then Some (c_category c)
      else if field = ''notes'' then Some (c_notes c)
      else if field = ''last_modified'' then Some (c_last_modified c)
      else None)"

fun search_loop :: "string \<Rightarrow> string \<Rightarrow> contact list \<Rightarrow> contact list \<Rightarrow> contact list outcome" where
  "search_loop term field [] results = Return results"
| "search_loop term field (c # cs) results =
     (if field = ''all'' then
        (if py_in term (lower (c_name c)) \<or> py_in term (lower (c_phone c)) \<or>
            py_in term (lower (c_email c)) \<or> py_in term (lower (c_category c)) \<or>
            py_in term (lower (c_notes c))
         then search_loop term field cs (results @ [c])
         else search_loop term field cs results)
      else
        (case get_field field c of
            None \<Rightarrow> Raise (KeyError field)
          | Some v \<Rightarrow>
              if py_in term (lower v) then search_loop term field cs (results @ [c])
              else search_loop term field cs results))"

definition search_contacts :: "string \<Rightarrow> string \<Rightarrow> state \<Rightarrow> contact list outcome" where
  "search_contacts search_term field s = search_loop (lower search_term) field (contacts s) []"

subsection \<open>\<open>import_from_csv\<close>\<close>

text \<open>
  A row of \<open>csv.DictReader\<close> is a dictionary from the header's column names to the
  cells. \<open>row[k]\<close> raises \<open>KeyError\<close> on a column that the header does not have,
  \<open>row.get(k, d)\<close> gives \<open>d\<close> there. A row with fewer cells than the header has the
  value \<open>None\<close> under the columns it does not reach; the cells of a longer row are
  collected under the key \<open>None\<close>, which the code never reads.
\<close>

datatype cell = Str string | PyNone

type_synonym row = "string \<rightharpoonup> cell"

definition dict_get :: "row \<Rightarrow> string \<Rightarrow> cell \<Rightarrow> cell" where
  "dict_get row k d = (case row k of None \<Rightarrow> d | Some v \<Rightarrow> v)"

text \<open>
  What one iteration of the loop over the rows does. \<open>Row_untyped\<close>: the row is
  accepted, and the dictionary built for it has \<open>None\<close> under \<open>id\<close>, \<open>category\<close>,
  \<open>notes\<close> or \<open>last_modified\<close>; it is not a value of the record type.
\<close>

datatype row_result =
    Row_invalid dialog
  | Row_duplicate
  | Row_imported contact
  | Row_untyped
  | Row_raised error

text \<open>
  One iteration; \<open>nid\<close> and \<open>now\<close> are the values of \<open>uuid4()\<close> and
  \<open>datetime.now()\<close> in it. The three arguments of \<open>validate_inputs\<close> are evaluated
  first, in their order; \<open>validate_inputs\<close> then calls \<open>strip\<close> on each of them,
  which raises \<open>AttributeError\<close> on \<open>None\<close>.
\<close>

definition import_row :: "'p env \<Rightarrow> state \<Rightarrow> string \<Rightarrow> string \<Rightarrow> row \<Rightarrow> row_result" where
  "import_row E s nid now row =
     (case row ''name'' of
        None \<Rightarrow> Row_raised (KeyError ''name'')
      | Some name_cell \<Rightarrow>
         (case row ''phone'' of
            None \<Rightarrow> Row_raised (KeyError ''phone'')
          | Some phone_cell \<Rightarrow>
             (case (name_cell, phone_cell, dict_get row ''email'' (Str [])) of
                (Str name, Str phone, Str email) \<Rightarrow>
                  (let (is_valid, error_message) = validate_inputs E name phone email in
                   if \<not> is_valid
                     then Row_invalid (ShowWarning
                            (''Skipping invalid contact '' @ name @ '': '' @ error_message))
                   else if \<not> is_duplicate E s name phone email
                     then (case (dict_get row ''id'' (Str nid),
                                 dict_get row ''category'' (Str ''Other''),
                                 dict_get row ''notes'' (Str []),
                                 dict_get row ''last_modified'' (Str now)) of
                             (Str i, Str c, Str n, Str m) \<Rightarrow>
                               Row_imported
                                 \<lparr>c_id = i, c_name = name, c_phone = phone, c_email = email,
                                  c_category = c, c_notes = n, c_last_modified = m\<rparr>
                           | _ \<Rightarrow> Row_untyped)
                   else Row_duplicate)
              | _ \<Rightarrow> Row_raised AttributeError)))"

text \<open>
  The loop: \<open>i\<close> counts the rows read so far, \<open>imported\<close> is
  \<open>imported_contacts\<close>, \<open>shown\<close> the warnings displayed so far. The record list of
  the store is not changed while the loop runs. The result is \<open>None\<close> when a row is
  accepted whose dictionary is not a value of the record type: the list that the
  code builds from there on cannot be written down here, and nothing is said about
  such a run.
\<close>

fun import_loop ::
  "'p env \<Rightarrow> state \<Rightarrow> (nat \<Rightarrow> string) \<Rightarrow> (nat \<Rightarrow> string) \<Rightarrow> nat \<Rightarrow> row list
     \<Rightarrow> contact list \<Rightarrow> dialog list \<Rightarrow> (error option \<times> contact list \<times> dialog list) option" where
  "import_loop E s uuid4 now i [] imported shown = Some (None, imported, shown)"
| "import_loop E s uuid4 now i (row # rows) imported shown =
     (case import_row E s (uuid4 i) (now i) row of
        Row_raised e \<Rightarrow> Some (Some e, imported, shown)
      | Row_untyped \<Rightarrow> None
      | Row_invalid d \<Rightarrow> import_loop E s uuid4 now (Suc i) rows imported (shown @ [d])
      | Row_duplicate \<Rightarrow> import_loop E s uuid4 now (Suc i) rows imported shown
      | Row_imported c \<Rightarrow> import_loop E s uuid4 now (Suc i) rows (imported @ [c]) shown)"

text \<open>
  The file argument is \<open>None\<close> when opening or reading it raises \<open>IOError\<close>, and the
  list of its rows otherwise. \<open>KeyError\<close> and \<open>AttributeError\<close> are not caught and leave
  the call. The \<open>except IOError\<close> clause also catches the error of \<open>save_contacts\<close>;
  the text of the operating system's error is not part of the dialog modelled. The
  result is \<open>None\<close> where the loop's is.
\<close>

definition import_from_csv ::
  "'p env \<Rightarrow> (nat \<Rightarrow> string) \<Rightarrow> (nat \<Rightarrow> string) \<Rightarrow> string \<Rightarrow> row list option \<Rightarrow> state
     \<Rightarrow> (bool outcome \<times> dialog list \<times> state) option" where
  "import_from_csv E uuid4 now stamp file s =
     (case file of
        None \<Rightarrow> Some (Return False, [ShowError ''Failed to import contacts''], s)
      | Some rows \<Rightarrow>
         (case import_loop E s uuid4 now 0 rows [] [] of
            None \<Rightarrow> None
          | Some (Some e, imported_contacts, shown) \<Rightarrow> Some (Raise e, shown, s)
          | Some (None, imported_contacts, shown) \<Rightarrow>
              if imported_contacts \<noteq> [] then
                (let s1 = s\<lparr>undo_stack := deque_append (Import imported_contacts) (undo_stack s)\<rparr>;
                     s2 = s1\<lparr>contacts := contacts s1 @ imported_contacts\<rparr> in
                 (case save_contacts stamp s2 of
                    Inl e \<Rightarrow>
                      Some (Return False, shown @ [ShowError ''Failed to import contacts''], s2)
                  | Inr s3 \<Rightarrow> Some (Return True, shown, s3)))
              else Some (Return True, shown, s)))"

subsection \<open>\<open>restore_backup\<close>\<close>

text \<open>What \<open>json.load\<close> makes of the backup file: opening or decoding fails, the
  document is not a list, or it is a list of records.\<close>

datatype backup_file = Unreadable | Not_a_list | Records "contact list"

definition restore_backup ::
  "string \<Rightarrow> backup_file \<Rightarrow> state \<Rightarrow> bool outcome \<times> dialog list \<times> state" where
  "restore_backup stamp file s =
     (case file of
        Unreadable \<Rightarrow> (Return False, [ShowError ''Failed to restore backup''], s)
      | Not_a_list \<Rightarrow> (Return False, [], s)
      | Records cs \<Rightarrow>
         (let s1 = s\<lparr>undo_stack := deque_append (Restore (contacts s)) (undo_stack s)\<rparr>;
              s2 = s1\<lparr>contacts := cs\<rparr> in
          (case save_contacts stamp s2 of
             Inl e \<Rightarrow> (Return False, [ShowError ''Failed to restore backup''], s2)
           | Inr s3 \<Rightarrow> (Return True, [], s3))))"

subsection \<open>Successful mutations\<close>

text \<open>
  \<open>mutation E s a s'\<close>: one of the five mutating operations, called in state \<open>s\<close>,
  returns success and leaves the state \<open>s'\<close>; \<open>a\<close> is the action that describes it.
  \<open>mutations E s as s'\<close> is a sequence of such calls, one after the other.
\<close>

inductive mutation :: "'p env \<Rightarrow> state \<Rightarrow> action \<Rightarrow> state \<Rightarrow> bool" for E :: "'p env" where
  by_add:
    "add_contact E nid now stamp name phone email category notes s = (Return (Some c), s')
       \<Longrightarrow> mutation E s (Add c) s'"
| by_update:
    "update_contact now stamp i name phone email category notes s = (Return True, s')
       \<Longrightarrow> find (\<lambda>c. c_id c = i) (contacts s) = Some old
       \<Longrightarrow> find (\<lambda>c. c_id c = i) (contacts s') = Some new
       \<Longrightarrow> mutation E s (Update old new) s'"
| by_delete:
    "delete_contact stamp i s = (Return True, s')
       \<Longrightarrow> find (\<lambda>c. c_id c = i) (contacts s) = Some c
       \<Longrightarrow> mutation E s (Delete c) s'"
| by_import:
    "import_from_csv E uuid4 now stamp (Some rows) s = Some (Return True, shown, s')
       \<Longrightarrow> contacts s' = contacts s @ imported \<Longrightarrow> imported \<noteq> []
       \<Longrightarrow> mutation E s (Import imported) s'"
| by_restore:
    "restore_backup stamp (Records cs) s = (Return True, shown, s')
       \<Longrightarrow> mutation E s (Restore (contacts s)) s'"

inductive mutations :: "'p env \<Rightarrow> state \<Rightarrow> action list \<Rightarrow> state \<Rightarrow> bool" for E :: "'p env" where
  no_mutation: "mutations E s [] s"
| next_mutation: "mutation E s a s' \<Longrightarrow> mutations E s' as s'' \<Longrightarrow> mutations E s (a # as) s''"

subsection \<open>An instance of the libraries, for evaluation\<close>

text \<open>
  A small stand-in for \<open>phonenumbers\<close> and \<open>email_validator\<close>, used where an
  operation is evaluated on concrete arguments. A number parses without a default
  region only when it starts with \<open>+\<close>; spaces, hyphens, dots and parentheses are
  separators; the parsed number is its digit string and the E.164 form is \<open>+\<close>
  followed by the digits; a number is valid with 8 to 15 digits. An address is
  accepted when it has one \<open>@\<close> with a non-empty local part and a dot in the domain.
\<close>

definition isdigit :: "char \<Rightarrow> bool" where
  "isdigit c = (let n = char_code c in 48 \<le> n \<and> n \<le> 57)"

definition sample_parse :: "string \<Rightarrow> string option" where
  "sample_parse s =
     (case filter (\<lambda>c. c \<notin> set '' -.()'') s of
        [] \<Rightarrow> None
      | c # ds \<Rightarrow> if c = CHR ''+'' \<and> ds \<noteq> [] \<and> list_all isdigit ds then Some ds else None)"

definition sample_validate_email :: "string \<Rightarrow> string option" where
  "sample_validate_email e =
     (let local_part = takeWhile (\<lambda>c. c \<noteq> CHR ''@'') e;
          rest = dropWhile (\<lambda>c. c \<noteq> CHR ''@'') e in
      if local_part \<noteq> [] \<and> rest \<noteq> [] \<and> CHR ''@'' \<notin> set (tl rest) \<and> CHR ''.'' \<in> set (tl rest)
      then None else Some ''The email address is not valid.'')"

definition sample_env :: "string env" where
  "sample_env =
     \<lparr>parse = sample_parse,
      is_valid_number = (\<lambda>ds. 8 \<le> length ds \<and> length ds \<le> 15),
      format_e164 = (\<lambda>ds. CHR ''+'' # ds),
      validate_email = sample_validate_email\<rparr>"

definition empty_store :: state where
  "empty_store = \<lparr>contacts = [], undo_stack = [], disk = None, backups = [], writable = True\<rparr>"

subsection \<open>What an import keeps, in the words of the specification\<close>

text \<open>
  Each row is judged on its own by the rule of \<open>validate_inputs\<close> and by
  \<open>is_duplicate\<close> against the store as it is when the import starts. The rows that
  pass both are the survivors, in the order of the file; every row that fails the
  first is reported in a warning. A row is complete when it has the columns \<open>name\<close>
  and \<open>phone\<close> and a cell under every column of a record that its header has
  (no \<open>None\<close> there). \<open>cell_text row k d\<close> is the text of the cell under \<open>k\<close>, and \<open>d\<close>
  where there is none.
\<close>

definition record_fields :: "string list" where
  "record_fields =
     [''id'', ''name'', ''phone'', ''email'', ''category'', ''notes'', ''last_modified'']"

definition complete_row :: "row \<Rightarrow> bool" where
  "complete_row row =
     (row ''name'' \<noteq> None \<and> row ''phone'' \<noteq> None \<and>
      list_all (\<lambda>k. row k \<noteq> Some PyNone) record_fields)"

definition cell_text :: "row \<Rightarrow> string \<Rightarrow> string \<Rightarrow> string" where
  "cell_text row k d = (case row k of Some (Str v) \<Rightarrow> v | _ \<Rightarrow> d)"

definition valid_row :: "'p env \<Rightarrow> row \<Rightarrow> bool" where
  "valid_row E row =
     fst (validate_inputs E (cell_text row ''name'' []) (cell_text row ''phone'' [])
            (cell_text row ''email'' []))"

definition duplicate_row :: "'p env \<Rightarrow> state \<Rightarrow> row \<Rightarrow> bool" where
  "duplicate_row E s row =
     is_duplicate E s (cell_text row ''name'' []) (cell_text row ''phone'' [])
       (cell_text row ''email'' [])"

definition row_contact :: "string \<Rightarrow> string \<Rightarrow> row \<Rightarrow> contact" where
  "row_contact nid now row =
     \<lparr>c_id = cell_text row ''id'' nid, c_name = cell_text row ''name'' [],
      c_phone = cell_text row ''phone'' [], c_email = cell_text row ''email'' [],
      c_category = cell_text row ''category'' ''Other'', c_notes = cell_text row ''notes'' [],
      c_last_modified = cell_text row ''last_modified'' now\<rparr>"

definition skip_warning :: "'p env \<Rightarrow> row \<Rightarrow> dialog" where
  "skip_warning E row =
     ShowWarning (''Skipping invalid contact '' @ cell_text row ''name'' [] @ '': '' @
       snd (validate_inputs E (cell_text row ''name'' []) (cell_text row ''phone'' [])
              (cell_text row ''email'' [])))"

definition surviving ::
  "'p env \<Rightarrow> state \<Rightarrow> (nat \<Rightarrow> string) \<Rightarrow> (nat \<Rightarrow> string) \<Rightarrow> nat \<Rightarrow> row list \<Rightarrow> contact list" where
  "surviving E s uuid4 now i rows =
     map (\<lambda>(k, r). row_contact (uuid4 k) (now k) r)
       (filter (\<lambda>(k, r). valid_row E r \<and> \<not> duplicate_row E s r) (enumerate i rows))"

definition skip_warnings :: "'p env \<Rightarrow> row list \<Rightarrow> dialog list" where
  "skip_warnings E rows = map (skip_warning E) (filter (\<lambda>r. \<not> valid_row E r) rows)"

subsection \<open>Stores and files used as examples\<close>

definition jane :: contact where
  "jane = \<lparr>c_id = ''id1'', c_name = ''Jane Doe'', c_phone = ''+16502530000'',
           c_email = ''jane@example.com'', c_category = ''Work'', c_notes = [],
           c_last_modified = ''2026-01-01T10:00:00''\<rparr>"

definition store1 :: state where
  "store1 = \<lparr>contacts = [jane], undo_stack = [Add jane], disk = Some [jane], backups = [],
             writable = True\<rparr>"

text \<open>The store after \<open>n\<close> restores of an empty backup, starting from \<open>store1\<close>. After
  ten of them a backup that holds Jane is restored: eleven successful mutations.\<close>

fun after_restores :: "nat \<Rightarrow> state" where
  "after_restores 0 = store1"
| "after_restores (Suc n) = snd (snd (restore_backup ''b'' (Records []) (after_restores n)))"

definition eleven_actions :: "action list" where
  "eleven_actions = map (\<lambda>k. Restore (contacts (after_restores k))) [0..<10] @ [Restore []]"

definition final_store :: state where
  "final_store = snd (snd (restore_backup ''b'' (Records [jane]) (after_restores 10)))"

text \<open>Rows of a file with the header \<open>name,phone,email\<close>, and a row of such a file that
  stops after the phone.\<close>

definition ann_row :: row where
  "ann_row = map_of [(''name'', Str ''Ann Lee''), (''phone'', Str ''+1 650 253 0001''),
                     (''email'', Str ''ann@example.com'')]"

definition bob_row :: row where
  "bob_row = map_of [(''name'', Str ''Bob Ray''), (''phone'', Str ''+1 650 253 0002''),
                     (''email'', Str [])]"

definition bad_row :: row where
  "bad_row = map_of [(''name'', Str ''Bob''), (''phone'', Str ''12345''), (''email'', Str [])]"

definition short_row :: row where
  "short_row = map_of [(''name'', Str ''Cy Young''), (''phone'', Str ''+1 650 253 0003''),
                       (''email'', PyNone)]"

definition fresh_ids :: "nat \<Rightarrow> string" where
  "fresh_ids k = replicate (Suc k) (CHR ''u'')"

definition clock :: "nat \<Rightarrow> string" where
  "clock k = ''2026-01-02T09:00:0'' @ replicate (Suc k) (CHR ''0'')"

section \<open>Properties\<close>

lemma length_deque_append: "length (deque_append x q) \<le> maxlen"
  by (simp add: deque_append_def Let_def)

lemma deque_append_not_Nil: "deque_append x q \<noteq> []"
  by (simp add: deque_append_def Let_def maxlen_def)

lemma last_deque_append: "last (deque_append x q) = x"
  by (simp add: deque_append_def Let_def maxlen_def)

lemma butlast_deque_append:
  "butlast (deque_append x q) = drop (Suc (length q) - maxlen) q"
  by (simp add: deque_append_def Let_def maxlen_def butlast_drop)

lemma save_contacts_writable:
  "writable s \<Longrightarrow> save_contacts stamp s =
     Inr (s\<lparr>backups := (case disk s of None \<Rightarrow> backups s | Some old \<Rightarrow> (stamp, old) # backups s),
            disk := Some (contacts s)\<rparr>)"
  by (simp add: save_contacts_def)

lemma save_contacts_Inr:
  "save_contacts stamp s = Inr s' \<Longrightarrow>
     contacts s' = contacts s \<and> undo_stack s' = undo_stack s \<and> writable s' \<and> writable s"
  by (auto simp: save_contacts_def split: if_splits)

lemma update_loop_absent: "i \<notin> set (map c_id cs) \<Longrightarrow> update_loop i f cs = None"
  by (induction cs) auto

lemma update_loop_Some:
  "update_loop i f cs = Some (old, cs') \<Longrightarrow>
     find (\<lambda>c. c_id c = i) cs = Some old \<and> (c_id (f old) = i \<longrightarrow> find (\<lambda>c. c_id c = i) cs' = Some (f old))"
  by (induction cs arbitrary: cs') (auto split: if_splits option.splits)

lemma add_contact_log:
  assumes "add_contact E nid now stamp name phone email category notes s = (Return (Some c), s')"
  shows "undo_stack s' = deque_append (Add c) (undo_stack s)"
  using assms
  by (auto simp: add_contact_def Let_def save_contacts_def split: if_splits)

lemma update_contact_log:
  assumes "update_contact now stamp i name phone email category notes s = (Return True, s')"
    and "find (\<lambda>c. c_id c = i) (contacts s) = Some old"
    and "find (\<lambda>c. c_id c = i) (contacts s') = Some new"
  shows "undo_stack s' = deque_append (Update old new) (undo_stack s)"
proof -
  let ?f = "\<lambda>c. c\<lparr>c_name := name, c_phone := phone, c_email := email,
                    c_category := category, c_notes := notes, c_last_modified := now\<rparr>"
  from assms(1) obtain old' cs' where
    loop: "update_loop i ?f (contacts s) = Some (old', cs')"
    by (auto simp: update_contact_def Let_def split: option.splits)
  from update_loop_Some[OF loop] have old': "find (\<lambda>c. c_id c = i) (contacts s) = Some old'"
    and new': "c_id (?f old') = i \<longrightarrow> find (\<lambda>c. c_id c = i) cs' = Some (?f old')"
    by auto
  from old' assms(2) have [simp]: "old' = old" by simp
  from old' have "c_id old' = i" by (auto dest: find_Some_iff[THEN iffD1])
  with new' have n: "find (\<lambda>c. c_id c = i) cs' = Some (?f old)" by simp
  from assms(1) loop have s': "contacts s' = cs'"
    and log: "undo_stack s' = deque_append (Update old (?f old)) (undo_stack s)"
    by (auto simp: update_contact_def Let_def save_contacts_def split: if_splits)
  from s' n assms(3) have "new = ?f old" by simp
  with log show ?thesis by simp
qed

lemma delete_contact_log:
  assumes "delete_contact stamp i s = (Return True, s')"
    and "find (\<lambda>c. c_id c = i) (contacts s) = Some c"
  shows "undo_stack s' = deque_append (Delete c) (undo_stack s)"
  using assms
  by (auto simp: delete_contact_def Let_def save_contacts_def split: if_splits)

lemma import_from_csv_log:
  assumes "import_from_csv E uuid4 now stamp (Some rows) s = Some (Return True, shown, s')"
    and "contacts s' = contacts s @ imported" and "imported \<noteq> []"
  shows "undo_stack s' = deque_append (Import imported) (undo_stack s)"
  using assms
  by (auto simp: import_from_csv_def Let_def save_contacts_def
           split: prod.splits option.splits if_splits)

lemma restore_backup_log:
  assumes "restore_backup stamp (Records cs) s = (Return True, shown, s')"
  shows "undo_stack s' = deque_append (Restore (contacts s)) (undo_stack s)"
  using assms
  by (auto simp: restore_backup_def Let_def save_contacts_def split: if_splits)

lemma mutation_log: "mutation E s a s' \<Longrightarrow> undo_stack s' = deque_append a (undo_stack s)"
  by (induction rule: mutation.induct)
     (simp_all add: add_contact_log update_contact_log delete_contact_log
        import_from_csv_log restore_backup_log)

lemma mutation_writable: "mutation E s a s' \<Longrightarrow> writable s'"
  by (induction rule: mutation.induct)
     (auto simp: add_contact_def update_contact_def delete_contact_def import_from_csv_def
        restore_backup_def Let_def save_contacts_def
        split: if_splits option.splits prod.splits)

lemma drop_drop_last:
  assumes "k \<le> length ys - n"
  shows "drop (length (drop k ys) - n) (drop k ys) = drop (length ys - n) ys"
proof -
  from assms have "length ys - k - n + k = length ys - n" by arith
  then show ?thesis by simp
qed

lemma deque_append_as_drop:
  "deque_append a q @ as = drop (Suc (length q) - maxlen) (q @ a # as)"
  by (simp add: deque_append_def Let_def maxlen_def)

lemma mutations_log:
  "mutations E s as s' \<Longrightarrow> length (undo_stack s) \<le> maxlen \<Longrightarrow>
     undo_stack s' = drop (length (undo_stack s @ as) - maxlen) (undo_stack s @ as)"
proof (induction rule: mutations.induct)
  case (no_mutation s)
  then show ?case by simp
next
  case (next_mutation s a s' as s'')
  let ?q = "undo_stack s"
  let ?k = "Suc (length ?q) - maxlen"
  have log: "undo_stack s' = deque_append a ?q"
    by (rule mutation_log[OF next_mutation.hyps(1)])
  then have "length (undo_stack s') \<le> maxlen" by (simp add: length_deque_append)
  from next_mutation.IH[OF this]
  have "undo_stack s'' = drop (length (undo_stack s' @ as) - maxlen) (undo_stack s' @ as)" .
  also have "undo_stack s' @ as = drop ?k (?q @ a # as)"
    by (simp only: log deque_append_as_drop)
  also have "drop (length (drop ?k (?q @ a # as)) - maxlen) (drop ?k (?q @ a # as))
      = drop (length (?q @ a # as) - maxlen) (?q @ a # as)"
    by (rule drop_drop_last) simp
  finally show ?case .
qed

lemma mutations_Nil: "mutations E s [] s' \<Longrightarrow> s' = s"
  by (auto elim: mutations.cases)

lemma mutations_writable:
  "mutations E s as s' \<Longrightarrow> as \<noteq> [] \<Longrightarrow> writable s'"
proof (induction rule: mutations.induct)
  case (no_mutation s)
  then show ?case by simp
next
  case (next_mutation s a s' as s'')
  show ?case
  proof (cases as)
    case Nil
    with next_mutation.hyps(2) have "s'' = s'" by (simp add: mutations_Nil)
    with next_mutation.hyps(1) show ?thesis by (simp add: mutation_writable)
  next
    case (Cons b bs)
    with next_mutation.IH show ?thesis by simp
  qed
qed

lemma eleven_mutations_log:
  assumes "mutations E s as s'" and "length as = 11"
  shows "undo_stack s' = tl as"
proof -
  from assms(2) obtain a bs where as: "as = a # bs" and bs: "length bs = 10"
    by (cases as) auto
  from assms(1) as obtain s1 where m: "mutation E s a s1" and ms: "mutations E s1 bs s'"
    by (auto elim: mutations.cases)
  let ?q = "undo_stack s1"
  have q: "length ?q \<le> maxlen"
    using mutation_log[OF m] by (simp add: length_deque_append)
  have "undo_stack s' = drop (length (?q @ bs) - maxlen) (?q @ bs)"
    by (rule mutations_log[OF ms q])
  with bs show ?thesis by (simp add: as maxlen_def)
qed

lemma add_contact_success:
  assumes "\<not> is_duplicate E s name phone email" and "writable s"
  shows "\<exists>s'. add_contact E nid now stamp name phone email category remarks s =
           (Return (Some \<lparr>c_id = nid, c_name = name, c_phone = phone, c_email = email,
              c_category = category, c_notes = remarks, c_last_modified = now\<rparr>), s') \<and>
         contacts s' = contacts s @ [\<lparr>c_id = nid, c_name = name, c_phone = phone,
              c_email = email, c_category = category, c_notes = remarks,
              c_last_modified = now\<rparr>] \<and>
         writable s'"
  using assms by (simp add: add_contact_def Let_def save_contacts_def)

lemma undo_last:
  assumes "undo_stack s \<noteq> []" and "writable s"
  shows "\<exists>s2. undo stamp s = (Return True, s2) \<and>
           undo_stack s2 = butlast (undo_stack s) \<and>
           contacts s2 = reverse_action (last (undo_stack s)) (contacts s)"
  using assms by (simp add: undo_def Let_def save_contacts_def)

lemma filter_fresh_id:
  "nid \<notin> set (map c_id cs) \<Longrightarrow> filter (\<lambda>x. c_id x \<noteq> nid) cs = cs"
  by (induction cs) auto

text \<open>
  Claim C6. When no record of the store has the given id, \<open>update_contact\<close> returns
  \<open>False\<close> and the whole state, the undo log, the record list and the file included,
  is what it was.
\<close>

theorem update_absent_id_unchanged:
  assumes "contact_id \<notin> set (map c_id (contacts s))"
  shows "update_contact now stamp contact_id name phone email category notes s = (Return False, s)"
  using assms by (simp add: update_contact_def update_loop_absent)

theorem update_absent_id_unchanged_witness:
  "''id7'' \<notin> set (map c_id (contacts store1)) \<and>
   update_contact ''t'' ''b'' ''id7'' ''Ann Lee'' ''+16502530001'' [] ''Work'' [] store1 =
     (Return False, store1)"
proof -
  have absent: "''id7'' \<notin> set (map c_id (contacts store1))"
    by (simp add: store1_def jane_def)
  from absent update_absent_id_unchanged[OF absent] show ?thesis by simp
qed

text \<open>
  Claim C7. When the arguments match an existing record by \<open>is_duplicate\<close>,
  \<open>add_contact\<close> returns \<open>None\<close> and the state (record list, undo log, file and
  backups) is unchanged.
\<close>

theorem add_duplicate_unchanged:
  assumes "is_duplicate E s name phone email"
  shows "add_contact E nid now stamp name phone email category notes s = (Return None, s)"
  using assms by (simp add: add_contact_def)

theorem add_duplicate_unchanged_witness:
  "is_duplicate sample_env store1 ''jane doe'' ''+1 650 253 9999'' [] \<and>
   add_contact sample_env ''id2'' ''t'' ''b'' ''jane doe'' ''+1 650 253 9999'' [] ''Other'' []
     store1 = (Return None, store1)"
proof -
  have dup: "is_duplicate sample_env store1 ''jane doe'' ''+1 650 253 9999'' []"
    by code_simp
  from dup add_duplicate_unchanged[OF dup] show ?thesis by simp
qed

text \<open>
  Claim C5. An input that is not a duplicate is added (the id generated for it is
  fresh, the file is writable), and the undo that follows gives back the record list
  as it was before the add, record for record and id for id.
\<close>

theorem add_then_undo:
  assumes "\<not> is_duplicate E s name phone email" and "writable s"
    and "nid \<notin> set (map c_id (contacts s))"
  shows "\<exists>c s1 s2.
           add_contact E nid now stamp name phone email category notes s = (Return (Some c), s1) \<and>
           undo stamp' s1 = (Return True, s2) \<and> contacts s2 = contacts s"
proof -
  let ?c = "\<lparr>c_id = nid, c_name = name, c_phone = phone, c_email = email,
              c_category = category, c_notes = notes, c_last_modified = now\<rparr>"
  from add_contact_success[OF assms(1,2)] obtain s1 where
    add: "add_contact E nid now stamp name phone email category notes s = (Return (Some ?c), s1)"
    and cs: "contacts s1 = contacts s @ [?c]" and w: "writable s1"
    by blast
  have log: "undo_stack s1 = deque_append (Add ?c) (undo_stack s)"
    by (rule add_contact_log[OF add])
  then have ne: "undo_stack s1 \<noteq> []" by (simp add: deque_append_not_Nil)
  from undo_last[OF ne w] obtain s2 where
    u: "undo stamp' s1 = (Return True, s2)"
    and c2: "contacts s2 = reverse_action (last (undo_stack s1)) (contacts s1)"
    by blast
  from c2 log cs assms(3) have "contacts s2 = contacts s"
    by (simp add: last_deque_append filter_fresh_id)
  with add u show ?thesis by blast
qed

theorem add_then_undo_witness:
  "\<not> is_duplicate sample_env store1 ''Ann Lee'' ''+16502530001'' ''ann@example.com'' \<and>
   writable store1 \<and> ''id2'' \<notin> set (map c_id (contacts store1)) \<and>
   (\<exists>c s1 s2.
      add_contact sample_env ''id2'' ''t'' ''b'' ''Ann Lee'' ''+16502530001'' ''ann@example.com''
        ''Other'' [] store1 = (Return (Some c), s1) \<and>
      undo ''b2'' s1 = (Return True, s2) \<and> contacts s2 = contacts store1)"
proof -
  have nodup: "\<not> is_duplicate sample_env store1 ''Ann Lee'' ''+16502530001'' ''ann@example.com''"
    by code_simp
  have w: "writable store1" by (simp add: store1_def)
  have fresh: "''id2'' \<notin> set (map c_id (contacts store1))"
    by (simp add: store1_def jane_def)
  from nodup w fresh add_then_undo[OF nodup w fresh] show ?thesis by blast
qed

lemma mutations_snoc:
  "mutations E s as s' \<Longrightarrow> mutation E s' a s'' \<Longrightarrow> mutations E s (as @ [a]) s''"
  by (induction rule: mutations.induct)
     (auto intro: mutations.intros)

lemma after_restores_writable: "writable (after_restores n)"
  by (induction n)
     (simp_all add: store1_def restore_backup_def Let_def save_contacts_def)

lemma after_restores_step:
  "mutation E (after_restores n) (Restore (contacts (after_restores n))) (after_restores (Suc n))"
proof (rule by_restore)
  show "restore_backup ''b'' (Records []) (after_restores n) = (Return True, [], after_restores (Suc n))"
    using after_restores_writable[of n]
    by (simp add: restore_backup_def Let_def save_contacts_def)
qed

lemma after_restores_chain:
  "mutations E store1 (map (\<lambda>k. Restore (contacts (after_restores k))) [0..<n]) (after_restores n)"
proof (induction n)
  case 0
  show ?case by (simp add: mutations.no_mutation)
next
  case (Suc n)
  from mutations_snoc[OF Suc after_restores_step[of E n]] show ?case by simp
qed

lemma after_restores_contacts: "contacts (after_restores (Suc n)) = []"
  using after_restores_writable[of n]
  by (simp add: restore_backup_def Let_def save_contacts_def)

lemma after_ten_restores: "contacts (after_restores 10) = []"
  using after_restores_contacts[of 9] by simp

lemma final_store_contacts: "contacts final_store = [jane]"
  using after_restores_writable[of 10]
  by (simp add: final_store_def restore_backup_def Let_def save_contacts_def)

lemma eleven_actions_run: "mutations sample_env store1 eleven_actions final_store"
proof -
  have "restore_backup ''b'' (Records [jane]) (after_restores 10) = (Return True, [], final_store)"
    using after_restores_writable[of 10]
    by (simp add: final_store_def restore_backup_def Let_def save_contacts_def)
  then have "mutation sample_env (after_restores 10) (Restore (contacts (after_restores 10)))
               final_store"
    by (rule by_restore)
  from mutations_snoc[OF after_restores_chain this] show ?thesis
    by (simp add: eleven_actions_def after_ten_restores)
qed

lemma last_tl_eleven: "length as = 11 \<Longrightarrow> last (tl as) = last as"
  by (cases as) auto

lemma tl_eleven_not_Nil: "length as = 11 \<Longrightarrow> tl as \<noteq> []"
  by (cases as) auto

text \<open>
  Claim C4. Eleven successful mutations are run on the store that holds Jane: ten
  restores of an empty backup, then the restore of a backup that holds Jane. The log
  then has ten entries, those of the second to the eleventh mutation, and undo
  returns \<open>True\<close> and pops the entry of the eleventh. But the eleventh mutation is not
  reversed: before it the record list was empty, and after the undo it still holds
  Jane.
\<close>

theorem undo_after_eleven_mutations:
  "mutations sample_env store1 eleven_actions final_store \<and>
   length eleven_actions = 11 \<and>
   length (undo_stack final_store) = 10 \<and>
   undo_stack final_store = tl eleven_actions \<and>
   last eleven_actions = Restore (contacts (after_restores 10)) \<and>
   contacts (after_restores 10) = [] \<and>
   contacts final_store = [jane] \<and>
   fst (undo ''b2'' final_store) = Return True \<and>
   undo_stack (snd (undo ''b2'' final_store)) = butlast (tl eleven_actions) \<and>
   contacts (snd (undo ''b2'' final_store)) = [jane]"
proof -
  note run = eleven_actions_run
  have len: "length eleven_actions = 11" by (simp add: eleven_actions_def)
  have log: "undo_stack final_store = tl eleven_actions"
    by (rule eleven_mutations_log[OF run len])
  from len have ne_as: "eleven_actions \<noteq> []" by auto
  have w: "writable final_store" by (rule mutations_writable[OF run ne_as])
  have la: "last eleven_actions = Restore (contacts (after_restores 10))"
    by (simp add: eleven_actions_def after_ten_restores)
  have lt: "last (tl eleven_actions) = last eleven_actions"
    by (rule last_tl_eleven[OF len])
  have ne: "undo_stack final_store \<noteq> []"
    unfolding log by (rule tl_eleven_not_Nil[OF len])
  from undo_last[OF ne w, of "''b2''"] obtain s2 where
    u: "undo ''b2'' final_store = (Return True, s2)"
    and l2: "undo_stack s2 = butlast (undo_stack final_store)"
    and c2: "contacts s2 = reverse_action (last (undo_stack final_store)) (contacts final_store)"
    by blast
  from c2 have c2': "contacts s2 = [jane]"
    by (simp add: log lt la final_store_contacts)
  from run len log la u l2 c2' show ?thesis
    by (simp add: after_ten_restores final_store_contacts)
qed

lemma complete_row_cells:
  assumes "complete_row r"
  shows "\<exists>name phone email.
           r ''name'' = Some (Str name) \<and> r ''phone'' = Some (Str phone) \<and>
           dict_get r ''email'' (Str []) = Str email \<and>
           cell_text r ''name'' [] = name \<and> cell_text r ''phone'' [] = phone \<and>
           cell_text r ''email'' [] = email"
proof -
  from assms obtain nc pc where n: "r ''name'' = Some nc" and p: "r ''phone'' = Some pc"
    by (auto simp: complete_row_def)
  from assms n p have "nc \<noteq> PyNone" and "pc \<noteq> PyNone" and e: "r ''email'' \<noteq> Some PyNone"
    by (auto simp: complete_row_def record_fields_def)
  then obtain name phone where "nc = Str name" and "pc = Str phone"
    by (cases nc; cases pc) auto
  with n p e show ?thesis
    by (auto simp: dict_get_def cell_text_def split: option.splits cell.splits)
qed

lemma complete_row_defaults:
  assumes "complete_row r" and "k \<in> set record_fields"
  shows "dict_get r k (Str d) = Str (cell_text r k d)"
proof -
  from assms have "r k \<noteq> Some PyNone"
    by (simp add: complete_row_def list_all_iff)
  then show ?thesis
    by (auto simp: dict_get_def cell_text_def split: option.splits cell.splits)
qed

lemma import_row_complete:
  assumes "complete_row r"
  shows "import_row E s nid now r =
           (if \<not> valid_row E r then Row_invalid (skip_warning E r)
            else if \<not> duplicate_row E s r then Row_imported (row_contact nid now r)
            else Row_duplicate)"
proof -
  from complete_row_cells[OF assms] obtain name phone email where
    c: "r ''name'' = Some (Str name)" "r ''phone'' = Some (Str phone)"
       "dict_get r ''email'' (Str []) = Str email"
       "cell_text r ''name'' [] = name" "cell_text r ''phone'' [] = phone"
       "cell_text r ''email'' [] = email"
    by blast
  have d: "dict_get r ''id'' (Str nid) = Str (cell_text r ''id'' nid)"
    "dict_get r ''category'' (Str ''Other'') = Str (cell_text r ''category'' ''Other'')"
    "dict_get r ''notes'' (Str []) = Str (cell_text r ''notes'' [])"
    "dict_get r ''last_modified'' (Str now) = Str (cell_text r ''last_modified'' now)"
    by (rule complete_row_defaults[OF assms], simp add: record_fields_def)+
  show ?thesis
    by (simp add: import_row_def c d valid_row_def duplicate_row_def row_contact_def
          skip_warning_def split: prod.splits)
qed

lemma import_loop_complete:
  assumes "\<forall>r\<in>set rows. complete_row r"
  shows "import_loop E s uuid4 now i rows acc shown =
           Some (None, acc @ surviving E s uuid4 now i rows, shown @ skip_warnings E rows)"
  using assms
proof (induction rows arbitrary: i acc shown)
  case Nil
  show ?case by (simp add: surviving_def skip_warnings_def)
next
  case (Cons r rows)
  then have wf: "complete_row r" and rest: "\<forall>r\<in>set rows. complete_row r"
    by simp_all
  note IH = Cons.IH[OF rest]
  show ?case
    by (simp add: import_row_complete[OF wf] IH surviving_def skip_warnings_def)
qed

lemma filter_batch_ids:
  "filter (\<lambda>x. c_id x \<notin> set (map c_id batch)) (cs @ batch) =
   filter (\<lambda>x. c_id x \<notin> set (map c_id batch)) cs"
  by (induction batch rule: rev_induct) (auto simp: filter_empty_conv)

text \<open>
  A row that stops before the \<open>email\<close> column of its header has \<open>None\<close> there, and the
  import of a file with such a row ends in \<open>AttributeError\<close>.
\<close>

lemma import_short_row_raises:
  "import_from_csv sample_env fresh_ids clock ''b'' (Some [short_row]) store1 =
     Some (Raise AttributeError, [], store1)"
  by code_simp

text \<open>
  Claim C8, as amended. For a readable file whose rows all have the columns \<open>name\<close>
  and \<open>phone\<close> and are not shorter than the header, and a writable store file,
  \<open>import_from_csv\<close> returns \<open>True\<close>, shows one warning for each invalid row and none
  for a duplicate, and appends exactly the surviving rows. When at least one row
  survives, they are pushed as one \<open>Import\<close> entry and saved, and one undo removes
  every record with an id of the batch, so no record of the batch remains. When no
  row survives, nothing is pushed and the state is unchanged.
\<close>

theorem import_from_csv_batch:
  assumes "\<forall>r\<in>set rows. complete_row r" and "writable s"
  shows "let imported = surviving E s uuid4 now 0 rows in
         \<exists>s'. import_from_csv E uuid4 now stamp (Some rows) s =
                 Some (Return True, skip_warnings E rows, s') \<and>
               contacts s' = contacts s @ imported \<and>
               (imported = [] \<longrightarrow> s' = s) \<and>
               (imported \<noteq> [] \<longrightarrow>
                  undo_stack s' = deque_append (Import imported) (undo_stack s) \<and>
                  disk s' = Some (contacts s') \<and>
                  (\<exists>s2. undo stamp' s' = (Return True, s2) \<and>
                        contacts s2 =
                          filter (\<lambda>c. c_id c \<notin> set (map c_id imported)) (contacts s) \<and>
                        set imported \<inter> set (contacts s2) = {}))"
proof -
  let ?imported = "surviving E s uuid4 now 0 rows"
  have loop: "import_loop E s uuid4 now 0 rows [] [] =
                Some (None, ?imported, skip_warnings E rows)"
    using import_loop_complete[OF assms(1), of E s uuid4 now 0 "[]" "[]"] by simp
  show ?thesis
  proof (cases "?imported = []")
    case True
    with loop show ?thesis by (simp add: import_from_csv_def Let_def)
  next
    case False
    from loop False assms(2)
    have "\<exists>s'. import_from_csv E uuid4 now stamp (Some rows) s =
                  Some (Return True, skip_warnings E rows, s') \<and>
                contacts s' = contacts s @ ?imported \<and>
                undo_stack s' = deque_append (Import ?imported) (undo_stack s) \<and>
                disk s' = Some (contacts s') \<and> writable s'"
      by (simp add: import_from_csv_def Let_def save_contacts_def)
    then obtain s' where
      run: "import_from_csv E uuid4 now stamp (Some rows) s =
              Some (Return True, skip_warnings E rows, s')"
      and cs: "contacts s' = contacts s @ ?imported"
      and log: "undo_stack s' = deque_append (Import ?imported) (undo_stack s)"
      and dsk: "disk s' = Some (contacts s')" and w: "writable s'"
      by blast
    from log have ne: "undo_stack s' \<noteq> []" by (simp add: deque_append_not_Nil)
    from undo_last[OF ne w, of stamp'] obtain s2 where
      u: "undo stamp' s' = (Return True, s2)"
      and c2: "contacts s2 = reverse_action (last (undo_stack s')) (contacts s')"
      by blast
    from c2 have c2': "contacts s2 =
        filter (\<lambda>c. c_id c \<notin> set (map c_id ?imported)) (contacts s)"
      by (simp add: log cs last_deque_append filter_batch_ids)
    then have "set ?imported \<inter> set (contacts s2) = {}" by auto
    with run u c2' False cs log dsk show ?thesis by (simp add: Let_def)
  qed
qed

theorem import_from_csv_batch_witness:
  "complete_row ann_row \<and> complete_row bad_row \<and> complete_row bob_row \<and>
   writable store1 \<and>
   (\<exists>s'. import_from_csv sample_env fresh_ids clock ''b'' (Some [ann_row, bad_row, bob_row]) store1 =
           Some (Return True,
            [ShowWarning ''Skipping invalid contact Bob: Invalid phone number format.''], s') \<and>
         map c_name (contacts s') = [''Jane Doe'', ''Ann Lee'', ''Bob Ray''] \<and>
         last (undo_stack s') = Import (drop 1 (contacts s')) \<and>
         (\<exists>s2. undo ''b2'' s' = (Return True, s2) \<and> contacts s2 = [jane]))"
proof -
  let ?rows = "[ann_row, bad_row, bob_row]"
  have wf: "\<forall>r\<in>set ?rows. complete_row r"
    by (simp add: complete_row_def record_fields_def ann_row_def bad_row_def bob_row_def)
  have w: "writable store1" by (simp add: store1_def)
  have surv: "surviving sample_env store1 fresh_ids clock 0 ?rows =
      [\<lparr>c_id = ''u'', c_name = ''Ann Lee'', c_phone = ''+1 650 253 0001'',
         c_email = ''ann@example.com'', c_category = ''Other'', c_notes = [],
         c_last_modified = ''2026-01-02T09:00:00''\<rparr>,
       \<lparr>c_id = ''uuu'', c_name = ''Bob Ray'', c_phone = ''+1 650 253 0002'',
         c_email = [], c_category = ''Other'', c_notes = [],
         c_last_modified = ''2026-01-02T09:00:0000''\<rparr>]"
    by code_simp
  have warn: "skip_warnings sample_env ?rows =
      [ShowWarning ''Skipping invalid contact Bob: Invalid phone number format.'']"
    by code_simp
  have cs: "contacts store1 = [jane]" by (simp add: store1_def)
  have ids: "c_id jane = ''id1''" "c_name jane = ''Jane Doe''" by (simp_all add: jane_def)
  from import_from_csv_batch[OF wf w, of sample_env fresh_ids clock "''b''" "''b2''"]
  show ?thesis
    unfolding Let_def surv warn cs
    using wf w by (auto simp: ids last_deque_append)
qed

text \<open>
  Claim C8 as stated fails when no row survives: the import of a file whose only row
  is invalid returns \<open>True\<close> and pushes no \<open>Import\<close> entry, the log still ends with the
  earlier \<open>Add\<close>, and the one undo that follows removes Jane, who was not imported.
\<close>

theorem import_from_csv_no_survivor_counterexample:
  "import_from_csv sample_env fresh_ids clock ''b'' (Some [bad_row]) store1 =
     Some (Return True,
      [ShowWarning ''Skipping invalid contact Bob: Invalid phone number format.''], store1) \<and>
   undo_stack store1 = [Add jane] \<and> contacts store1 = [jane] \<and>
   contacts (snd (undo ''b2'' store1)) = []"
  by code_simp

text \<open>
  Claim C10. Two rows with the same name, phone and email, both valid and matching
  no record of the store, are both added by one import: the store then ends with
  two records that carry the name, the phone and the email of the rows. Each row is
  checked against the records present before the import, not against the rows
  already accepted.
\<close>

theorem import_same_row_twice:
  assumes "complete_row r1" and "complete_row r2"
    and "valid_row E r1" and "\<not> duplicate_row E s r1"
    and "r1 ''name'' = r2 ''name''" and "r1 ''phone'' = r2 ''phone''"
    and "r1 ''email'' = r2 ''email''"
    and "writable s"
  shows "\<exists>s' c1 c2.
           import_from_csv E uuid4 now stamp (Some [r1, r2]) s = Some (Return True, [], s') \<and>
           contacts s' = contacts s @ [c1, c2] \<and>
           r1 ''name'' = Some (Str (c_name c1)) \<and> r1 ''phone'' = Some (Str (c_phone c1)) \<and>
           dict_get r1 ''email'' (Str []) = Str (c_email c1) \<and>
           r2 ''name'' = Some (Str (c_name c2)) \<and> r2 ''phone'' = Some (Str (c_phone c2)) \<and>
           dict_get r2 ''email'' (Str []) = Str (c_email c2) \<and>
           c_name c1 = c_name c2 \<and> c_phone c1 = c_phone c2 \<and> c_email c1 = c_email c2"
proof -
  let ?c1 = "row_contact (uuid4 0) (now 0) r1"
  let ?c2 = "row_contact (uuid4 1) (now 1) r2"
  from assms(5-7) have same: "cell_text r1 ''name'' [] = cell_text r2 ''name'' []"
    "cell_text r1 ''phone'' [] = cell_text r2 ''phone'' []"
    "cell_text r1 ''email'' [] = cell_text r2 ''email'' []"
    by (simp_all add: cell_text_def)
  with assms(3,4) have v2: "valid_row E r2" and d2: "\<not> duplicate_row E s r2"
    by (simp_all add: valid_row_def duplicate_row_def)
  have wf: "\<forall>r\<in>set [r1, r2]. complete_row r" using assms(1,2) by simp
  have surv: "surviving E s uuid4 now 0 [r1, r2] = [?c1, ?c2]"
    using assms(3,4) v2 d2 by (simp add: surviving_def)
  have warn: "skip_warnings E [r1, r2] = []"
    using assms(3) v2 by (simp add: skip_warnings_def)
  have loop: "import_loop E s uuid4 now 0 [r1, r2] [] [] = Some (None, [?c1, ?c2], [])"
    using import_loop_complete[OF wf, of E s uuid4 now 0 "[]" "[]"]
    by (simp only: surv warn append_Nil)
  from loop assms(8)
  have run: "\<exists>s'. import_from_csv E uuid4 now stamp (Some [r1, r2]) s =
                    Some (Return True, [], s') \<and>
                  contacts s' = contacts s @ [?c1, ?c2]"
    by (simp add: import_from_csv_def Let_def save_contacts_def)
  from complete_row_cells[OF assms(1)]
  have f1: "r1 ''name'' = Some (Str (c_name ?c1)) \<and> r1 ''phone'' = Some (Str (c_phone ?c1)) \<and>
            dict_get r1 ''email'' (Str []) = Str (c_email ?c1)"
    by (auto simp: row_contact_def)
  from complete_row_cells[OF assms(2)]
  have f2: "r2 ''name'' = Some (Str (c_name ?c2)) \<and> r2 ''phone'' = Some (Str (c_phone ?c2)) \<and>
            dict_get r2 ''email'' (Str []) = Str (c_email ?c2)"
    by (auto simp: row_contact_def)
  have eq: "c_name ?c1 = c_name ?c2 \<and> c_phone ?c1 = c_phone ?c2 \<and> c_email ?c1 = c_email ?c2"
    using same by (simp add: row_contact_def)
  from run f1 f2 eq show ?thesis by blast
qed

theorem import_same_row_twice_witness:
  "complete_row ann_row \<and> valid_row sample_env ann_row \<and>
   \<not> duplicate_row sample_env store1 ann_row \<and> writable store1 \<and>
   (\<exists>s' c1 c2.
      import_from_csv sample_env fresh_ids clock ''b'' (Some [ann_row, ann_row]) store1 =
        Some (Return True, [], s') \<and>
      contacts s' = jane # [c1, c2] \<and>
      c_name c1 = ''Ann Lee'' \<and> c_phone c1 = ''+1 650 253 0001'' \<and>
      c_email c1 = ''ann@example.com'' \<and>
      c_name c2 = ''Ann Lee'' \<and> c_phone c2 = ''+1 650 253 0001'' \<and>
      c_email c2 = ''ann@example.com'')"
proof -
  have wf: "complete_row ann_row"
    by (simp add: complete_row_def record_fields_def ann_row_def)
  have v: "valid_row sample_env ann_row" by code_simp
  have d: "\<not> duplicate_row sample_env store1 ann_row" by code_simp
  have w: "writable store1" by (simp add: store1_def)
  have cells: "ann_row ''name'' = Some (Str ''Ann Lee'')"
    "ann_row ''phone'' = Some (Str ''+1 650 253 0001'')"
    "dict_get ann_row ''email'' (Str []) = Str ''ann@example.com''"
    by (simp_all add: ann_row_def dict_get_def)
  have cs: "contacts store1 = [jane]" by (simp add: store1_def)
  from import_same_row_twice[OF wf wf v d refl refl refl w, of fresh_ids clock "''b''"]
  obtain s' c1 c2 where
    "import_from_csv sample_env fresh_ids clock ''b'' (Some [ann_row, ann_row]) store1 =
       Some (Return True, [], s')"
    and "contacts s' = contacts store1 @ [c1, c2]"
    and "ann_row ''name'' = Some (Str (c_name c1))"
    and "ann_row ''phone'' = Some (Str (c_phone c1))"
    and "dict_get ann_row ''email'' (Str []) = Str (c_email c1)"
    and "ann_row ''name'' = Some (Str (c_name c2))"
    and "ann_row ''phone'' = Some (Str (c_phone c2))"
    and "dict_get ann_row ''email'' (Str []) = Str (c_email c2)"
    by blast
  with wf v d w show ?thesis
    unfolding cells cs by (intro conjI exI[of _ s'] exI[of _ c1] exI[of _ c2]) simp_all
qed

lemma startswith_prefix: "startswith t s = prefix t s"
  by (induction t s rule: startswith.induct) simp_all

lemma py_in_sublist: "py_in t s = sublist t s"
  by (induction s) (simp_all add: startswith_prefix sublist_Cons_right)

lemma record_fields_get_field:
  assumes "field \<in> set record_fields"
  shows "field \<noteq> ''all'' \<and> (\<exists>v. get_field field c = Some v)"
  using assms by (auto simp: record_fields_def get_field_def)

lemma search_loop_field:
  assumes "field \<in> set record_fields"
  shows "search_loop t field cs results =
           Return (results @ filter (\<lambda>c. \<exists>v. get_field field c = Some v \<and> sublist t (lower v)) cs)"
proof (induction cs arbitrary: results)
  case Nil
  show ?case by simp
next
  case (Cons c cs)
  from record_fields_get_field[OF assms, of c] obtain v where
    na: "field \<noteq> ''all''" and v: "get_field field c = Some v"
    by blast
  show ?case by (simp add: na v Cons.IH py_in_sublist)
qed

text \<open>
  Claim C9, as amended. For a field argument that names one of the seven fields of a
  record, \<open>search_contacts\<close> returns, in the order of the store, exactly the records
  whose value in that field contains the term as a substring once both are put in
  lower case; with no match the result is the empty list.
\<close>

theorem search_by_field:
  assumes "field \<in> set record_fields"
  shows "search_contacts search_term field s =
           Return (filter (\<lambda>c. \<exists>v. get_field field c = Some v \<and>
                                   sublist (lower search_term) (lower v)) (contacts s))"
  using search_loop_field[OF assms, of "lower search_term" "contacts s" "[]"]
  by (simp add: search_contacts_def)

theorem search_by_field_witness:
  "''name'' \<in> set record_fields \<and>
   search_contacts ''JANE'' ''name'' store1 = Return [jane] \<and>
   filter (\<lambda>c. \<exists>v. get_field ''name'' c = Some v \<and> sublist (lower ''JANE'') (lower v))
     (contacts store1) = [jane]"
proof -
  have f: "''name'' \<in> set record_fields" by (simp add: record_fields_def)
  have hit: "search_contacts ''JANE'' ''name'' store1 = Return [jane]" by code_simp
  from search_by_field[OF f, of "''JANE''" store1]
  have "filter (\<lambda>c. \<exists>v. get_field ''name'' c = Some v \<and> sublist (lower ''JANE'') (lower v))
          (contacts store1) = [jane]"
    unfolding hit by (simp only: outcome.inject)
  with f hit show ?thesis by (intro conjI)
qed

text \<open>
  Claim C9 as stated fails for a field argument that is not a key of the records:
  with one record in the store the lookup \<open>contact[field]\<close> raises \<open>KeyError\<close>.
\<close>

theorem search_unknown_field_counterexample:
  "''address'' \<noteq> ''all'' \<and> search_contacts ''jane'' ''address'' store1 = Raise (KeyError ''address'')"
  by code_simp

lemma duplicate_loop_iff:
  "duplicate_loop name np email cs \<longleftrightarrow>
     (\<exists>c\<in>set cs. lower (c_name c) = lower name \<or> c_phone c = np \<or>
                  (email \<noteq> [] \<and> lower (c_email c) = lower email))"
  by (induction cs) auto

text \<open>
  Claim C2, as amended. After a successful add of a record whose phone argument is
  already the canonical E.164 form of a number, \<open>is_duplicate\<close> returns \<open>True\<close> for
  every phone argument that the region-agnostic parse reads as that number, whatever
  the name and the email of the call.
\<close>

theorem is_duplicate_of_canonical_phone:
  assumes "add_contact E nid now stamp name phone email category notes s = (Return (Some c), s')"
    and "parse E phone' = Some p" and "phone = format_e164 E p"
  shows "is_duplicate E s' name' phone' email'"
proof -
  from assms(1) have "contacts s' = contacts s @ [c]" and "c_phone c = phone"
    by (auto simp: add_contact_def Let_def save_contacts_def split: if_splits)
  moreover from assms(2,3) have "normalized_phone E phone' = phone"
    by (simp add: normalized_phone_def)
  ultimately show ?thesis
    by (auto simp: is_duplicate_def duplicate_loop_iff)
qed

theorem is_duplicate_of_canonical_phone_witness:
  "\<exists>c s'. add_contact sample_env ''id9'' ''t'' ''b'' ''Alice'' ''+12345678900'' [] ''Other'' []
             empty_store = (Return (Some c), s') \<and>
          parse sample_env ''+1 234 567 8900'' = Some ''12345678900'' \<and>
          ''+12345678900'' = format_e164 sample_env ''12345678900'' \<and>
          is_duplicate sample_env s' ''Bob'' ''+1 234 567 8900'' []"
proof -
  have nodup: "\<not> is_duplicate sample_env empty_store ''Alice'' ''+12345678900'' []"
    by code_simp
  have w: "writable empty_store" by (simp add: empty_store_def)
  from add_contact_success[OF nodup w, where nid = "''id9''" and now = "''t''"
      and stamp = "''b''" and category = "''Other''" and remarks = "[]"]
  obtain c s' where
    add: "add_contact sample_env ''id9'' ''t'' ''b'' ''Alice'' ''+12345678900'' [] ''Other'' []
            empty_store = (Return (Some c), s')"
    by blast
  have p: "parse sample_env ''+1 234 567 8900'' = Some ''12345678900''" by code_simp
  have f: "''+12345678900'' = format_e164 sample_env ''12345678900''" by code_simp
  from add p f is_duplicate_of_canonical_phone[OF add p f, of "''Bob''" "[]"]
  show ?thesis by blast
qed

text \<open>
  Claim C2 as stated fails: after the add of a record with the phone
  \<open>+1 234 567 8900\<close> the store holds that string as it was given, and \<open>is_duplicate\<close>
  with another name, no email and the phone \<open>12345678900\<close> (which does not parse
  without a region and is compared as it is) returns \<open>False\<close>.
\<close>

theorem is_duplicate_other_format_counterexample:
  "fst (add_contact sample_env ''id9'' ''t'' ''b'' ''Alice'' ''+1 234 567 8900'' [] ''Other'' []
          empty_store) =
     Return (Some \<lparr>c_id = ''id9'', c_name = ''Alice'', c_phone = ''+1 234 567 8900'',
                   c_email = [], c_category = ''Other'', c_notes = [],
                   c_last_modified = ''t''\<rparr>) \<and>
   \<not> is_duplicate sample_env
       (snd (add_contact sample_env ''id9'' ''t'' ''b'' ''Alice'' ''+1 234 567 8900'' [] ''Other'' []
               empty_store))
       ''Bob'' ''12345678900'' []"
  by code_simp

lemma add_contact_phone_as_given:
  assumes "add_contact E nid now stamp name phone email category notes s = (Return (Some c), s')"
  shows "c_phone c = phone \<and> contacts s' = contacts s @ [c]"
  using assms
  by (auto simp: add_contact_def Let_def save_contacts_def split: if_splits)

text \<open>
  Claim C1. The phone \<open>+1 650 253 0000\<close> passes \<open>validate_inputs\<close> and its canonical
  form is \<open>+16502530000\<close>, but the record that \<open>add_contact\<close> stores for it has the
  phone exactly as the caller wrote it.
\<close>

theorem add_contact_stores_raw_phone:
  "validate_inputs sample_env ''Jane Doe'' ''+1 650 253 0000'' [] = (True, []) \<and>
   normalized_phone sample_env ''+1 650 253 0000'' = ''+16502530000'' \<and>
   map c_phone (contacts (snd (add_contact sample_env ''id1'' ''t'' ''b'' ''Jane Doe''
          ''+1 650 253 0000'' [] ''Other'' [] empty_store))) = [''+1 650 253 0000'']"
  by code_simp

lemma undo_restore_entry:
  assumes "undo_stack s \<noteq> []" and "last (undo_stack s) = Restore previous"
  shows "contacts (snd (undo stamp s)) = contacts s"
  using assms
  by (simp add: undo_def Let_def save_contacts_def)

text \<open>
  Claim C3. After a restore of an empty backup over the store that holds Jane, the
  log ends with \<open>Restore [jane]\<close>; the undo that follows returns \<open>True\<close> and pops that
  entry, and the record list is still the restored, empty one, not the snapshot.
\<close>

theorem undo_restore_keeps_list:
  "undo_stack (after_restores 1) = [Add jane, Restore [jane]] \<and>
   contacts (after_restores 1) = [] \<and>
   fst (undo ''b2'' (after_restores 1)) = Return True \<and>
   undo_stack (snd (undo ''b2'' (after_restores 1))) = [Add jane] \<and>
   contacts (snd (undo ''b2'' (after_restores 1))) = []"
  by code_simp

end
